theory Spec2Isabelle
  imports Main
begin

section \<open>Broken link checker: a shallow embedding of \<open>main.py\<close>\<close>

text \<open>
  The script fetches one page, collects the targets of its anchors, turns them into
  absolute URLs and sends one HEAD request to each of them. Everything the script does
  beyond computing values is made explicit here: the network and the HTML parser are
  oracles of a record \<open>world\<close>, the module-level set \<open>processed_urls\<close> is passed
  in and returned, the log lines, the printed lines and the requests are collected in a
  list of events, and a Python exception is a value of the type \<open>py_exception\<close>.

  Python strings are modelled as lists of 8-bit characters (code points below 256).
\<close>

subsection \<open>Exceptions\<close>

text \<open>
  An exception carries the classes it is an instance of and its text. An \<open>except C\<close>
  clause catches it when \<open>C\<close> is among these classes, so a chain of clauses is an
  \<open>if\<close>/\<open>else if\<close> chain over \<open>isinstance\<close>, in the order of the source.
\<close>

datatype exc_class =
  RequestException | Timeout | TooManyRedirects | ConnectionError | HTTPError
  | ValueError | OtherClass

record py_exception =
  classes :: "exc_class list"
  message :: string

definition isinstance :: "py_exception \<Rightarrow> exc_class \<Rightarrow> bool" where
  "isinstance e c = (c \<in> set (classes e))"

definition value_error :: "string \<Rightarrow> py_exception" where
  "value_error m = \<lparr>classes = [ValueError], message = m\<rparr>"

subsection \<open>Strings\<close>

definition startswith :: "string \<Rightarrow> string \<Rightarrow> bool" where
  \<comment> \<open>\<open>s.startswith(p)\<close>\<close>
  "startswith s p = (take (length p) s = p)"

fun find_char :: "char \<Rightarrow> string \<Rightarrow> nat option" where
  \<comment> \<open>\<open>s.find(c)\<close>, with \<open>None\<close> for Python's \<open>-1\<close>\<close>
  "find_char c [] = None"
| "find_char c (x # xs) =
     (if x = c then Some 0 else map_option Suc (find_char c xs))"

fun split_sep :: "char \<Rightarrow> string \<Rightarrow> string list" where
  \<comment> \<open>\<open>s.split(c)\<close> for a separator of one character: never the empty list\<close>
  "split_sep c [] = [[]]"
| "split_sep c (x # xs) =
     (case split_sep c xs of
        [] \<Rightarrow> [[x]]
      | p # ps \<Rightarrow> if x = c then [] # p # ps else (x # p) # ps)"

fun join_sep :: "char \<Rightarrow> string list \<Rightarrow> string" where
  \<comment> \<open>\<open>c.join(parts)\<close>\<close>
  "join_sep c [] = []"
| "join_sep c [p] = p"
| "join_sep c (p # q # ps) = p @ c # join_sep c (q # ps)"

definition split_once :: "char \<Rightarrow> string \<Rightarrow> string \<times> string" where
  \<comment> \<open>\<open>s.split(c, 1)\<close> of a string that contains \<open>c\<close>\<close>
  "split_once c s = (takeWhile (\<lambda>x. x \<noteq> c) s, drop 1 (dropWhile (\<lambda>x. x \<noteq> c) s))"

definition is_c0_or_space :: "char \<Rightarrow> bool" where
  \<comment> \<open>membership in \<open>_WHATWG_C0_CONTROL_OR_SPACE\<close>: the code points 0 to 32\<close>
  "is_c0_or_space c = ((of_char c :: nat) \<le> 32)"

definition is_unsafe_byte :: "char \<Rightarrow> bool" where
  \<comment> \<open>membership in \<open>_UNSAFE_URL_BYTES_TO_REMOVE\<close>: tab, carriage return, line feed\<close>
  "is_unsafe_byte c = ((of_char c :: nat) \<in> {9, 13, 10})"

definition is_ascii_alpha :: "char \<Rightarrow> bool" where
  \<comment> \<open>\<open>c.isascii() and c.isalpha()\<close>\<close>
  "is_ascii_alpha c =
     (let n = (of_char c :: nat) in (65 \<le> n \<and> n \<le> 90) \<or> (97 \<le> n \<and> n \<le> 122))"

definition is_ascii_digit :: "char \<Rightarrow> bool" where
  "is_ascii_digit c = (let n = (of_char c :: nat) in 48 \<le> n \<and> n \<le> 57)"

definition is_hex_digit :: "char \<Rightarrow> bool" where
  \<comment> \<open>the class \<open>[a-fA-F0-9]\<close>\<close>
  "is_hex_digit c =
     (let n = (of_char c :: nat)
      in (48 \<le> n \<and> n \<le> 57) \<or> (65 \<le> n \<and> n \<le> 70) \<or> (97 \<le> n \<and> n \<le> 102))"

definition is_scheme_char :: "char \<Rightarrow> bool" where
  \<comment> \<open>membership in \<open>scheme_chars\<close>\<close>
  "is_scheme_char c =
     (is_ascii_alpha c \<or> is_ascii_digit c \<or> c = CHR ''+'' \<or> c = CHR ''-'' \<or> c = CHR ''.'')"

definition lower_char :: "char \<Rightarrow> char" where
  \<comment> \<open>\<open>str.lower\<close> on the characters a scheme can hold\<close>
  "lower_char c =
     (let n = (of_char c :: nat) in if 65 \<le> n \<and> n \<le> 90 then char_of (n + 32) else c)"

definition lstrip_c0 :: "string \<Rightarrow> string" where
  "lstrip_c0 s = dropWhile is_c0_or_space s"

definition strip_c0 :: "string \<Rightarrow> string" where
  "strip_c0 s = rev (dropWhile is_c0_or_space (rev (dropWhile is_c0_or_space s)))"

definition remove_unsafe :: "string \<Rightarrow> string" where
  "remove_unsafe s = filter (\<lambda>c. \<not> is_unsafe_byte c) s"

fun str_nat :: "nat \<Rightarrow> string" where
  \<comment> \<open>\<open>str(n)\<close> of a natural number\<close>
  "str_nat n =
     (if n < 10 then [char_of (48 + n)]
      else str_nat (n div 10) @ [char_of (48 + n mod 10)])"

declare str_nat.simps [simp del]

definition str_int :: "int \<Rightarrow> string" where
  "str_int i = (if i < 0 then CHR ''-'' # str_nat (nat (- i)) else str_nat (nat i))"

subsection \<open>The standard library: \<open>urllib.parse\<close>\<close>

text \<open>
  \<open>urlparse\<close> and \<open>urljoin\<close> are modelled after \<open>Lib/urllib/parse.py\<close> of
  CPython 3.11. Two parts of it are not computed here. The check of a host in brackets
  calls \<open>ipaddress.ip_address\<close>, which is an oracle \<open>ipaddr\<close> that every function
  below takes as its first argument. The check of a non-ASCII \<open>netloc\<close> under NFKC
  normalisation raises only when the normal form of a character holds one of
  \<open>/?#@:\<close>, which no code point below 256 does, so it has no branch in the model.
\<close>

datatype ip_version = IPv4 | IPv6

type_synonym ip_oracle = "string \<Rightarrow> py_exception + ip_version"

record parse_result =
  scheme :: string
  netloc :: string
  path :: string
  params :: string
  query :: string
  fragment :: string

definition uses_relative :: "string list" where
  "uses_relative = ['''', ''ftp'', ''http'', ''gopher'', ''nntp'', ''imap'',
     ''wais'', ''file'', ''https'', ''shttp'', ''mms'',
     ''prospero'', ''rtsp'', ''rtsps'', ''rtspu'', ''sftp'',
     ''svn'', ''svn+ssh'', ''ws'', ''wss'']"

definition uses_netloc :: "string list" where
  "uses_netloc = ['''', ''ftp'', ''http'', ''gopher'', ''nntp'', ''telnet'',
     ''imap'', ''wais'', ''file'', ''mms'', ''https'', ''shttp'',
     ''snews'', ''prospero'', ''rtsp'', ''rtsps'', ''rtspu'', ''rsync'',
     ''svn'', ''svn+ssh'', ''sftp'', ''nfs'', ''git'', ''git+ssh'',
     ''ws'', ''wss'']"

definition uses_params :: "string list" where
  "uses_params = ['''', ''ftp'', ''hdl'', ''prospero'', ''http'', ''imap'',
     ''https'', ''shttp'', ''rtsp'', ''rtsps'', ''rtspu'', ''sip'',
     ''sips'', ''mms'', ''sftp'', ''tel'']"

definition splitnetloc :: "string \<Rightarrow> string \<times> string" where
  \<comment> \<open>\<open>_splitnetloc(url, 2)\<close> of a string that starts with \<open>//\<close>: the domain runs
      to the first of \<open>/\<close>, \<open>?\<close>, \<open>#\<close> after the two slashes\<close>
  "splitnetloc url =
     (let is_delim = (\<lambda>c. c = CHR ''/'' \<or> c = CHR ''?'' \<or> c = CHR ''#'');
          r = drop 2 url
      in (takeWhile (\<lambda>c. \<not> is_delim c) r, dropWhile (\<lambda>c. \<not> is_delim c) r))"

definition check_bracketed_host :: "ip_oracle \<Rightarrow> string \<Rightarrow> py_exception option" where
  \<comment> \<open>\<open>_check_bracketed_host\<close>: \<open>None\<close> when the host passes. The regular expression
      \<open>\Av[a-fA-F0-9]+\..+\Z\<close> asks for hexadecimal digits after the \<open>v\<close>, a dot
      right after them, and then at least one character, none of them a line feed.\<close>
  "check_bracketed_host ipaddr hostname =
     (if startswith hostname ''v'' then
        (let r = drop 1 hostname;
             hex = takeWhile is_hex_digit r;
             after = dropWhile is_hex_digit r
         in if hex \<noteq> [] \<and> startswith after ''.'' \<and> drop 1 after \<noteq> []
               \<and> list_all (\<lambda>c. (of_char c :: nat) \<noteq> 10) (drop 1 after)
            then None
            else Some (value_error ''IPvFuture address is invalid''))
      else
        (case ipaddr hostname of
           Inl e \<Rightarrow> Some e
         | Inr IPv4 \<Rightarrow> Some (value_error ''An IPv4 address cannot be in brackets'')
         | Inr IPv6 \<Rightarrow> None))"

definition split_scheme :: "string \<Rightarrow> string \<Rightarrow> string \<times> string" where
  \<comment> \<open>the scheme part of \<open>urlsplit\<close>: the text before the first colon is the scheme
      when it starts with a letter and holds scheme characters only\<close>
  "split_scheme url dflt =
     (case find_char CHR '':'' url of
        None \<Rightarrow> (dflt, url)
      | Some i \<Rightarrow>
          if i > 0 \<and> is_ascii_alpha (hd url) \<and> list_all is_scheme_char (take i url)
          then (map lower_char (take i url), drop (Suc i) url)
          else (dflt, url))"

definition split_netloc_checked :: "ip_oracle \<Rightarrow> string \<Rightarrow> py_exception + (string \<times> string)" where
  \<comment> \<open>the \<open>netloc\<close> part of \<open>urlsplit\<close>, with its two checks of brackets\<close>
  "split_netloc_checked ipaddr url =
     (if take 2 url = ''//'' then
        (let (nl, rest) = splitnetloc url;
             has_open = (CHR ''['' \<in> set nl);
             has_close = (CHR '']'' \<in> set nl)
         in if (has_open \<and> \<not> has_close) \<or> (has_close \<and> \<not> has_open)
            then Inl (value_error ''Invalid IPv6 URL'')
            else if has_open \<and> has_close then
              (let bracketed_host =
                     takeWhile (\<lambda>c. c \<noteq> CHR '']'')
                       (drop 1 (dropWhile (\<lambda>c. c \<noteq> CHR ''['') nl))
               in case check_bracketed_host ipaddr bracketed_host of
                    Some e \<Rightarrow> Inl e
                  | None \<Rightarrow> Inr (nl, rest))
            else Inr (nl, rest))
      else Inr ('''', url))"

definition urlsplit ::
  "ip_oracle \<Rightarrow> string \<Rightarrow> string \<Rightarrow> py_exception + (string \<times> string \<times> string \<times> string \<times> string)" where
  \<comment> \<open>\<open>urlsplit(url, scheme)\<close>: (scheme, netloc, path, query, fragment)\<close>
  "urlsplit ipaddr url0 scheme0 =
     (let url1 = remove_unsafe (lstrip_c0 url0);
          dflt = remove_unsafe (strip_c0 scheme0);
          (sch, url2) = split_scheme url1 dflt
      in case split_netloc_checked ipaddr url2 of
           Inl e \<Rightarrow> Inl e
         | Inr (nl, url3) \<Rightarrow>
             (let (url4, frag) =
                    (if CHR ''#'' \<in> set url3 then split_once CHR ''#'' url3 else (url3, ''''));
                  (url5, qry) =
                    (if CHR ''?'' \<in> set url4 then split_once CHR ''?'' url4 else (url4, ''''))
              in Inr (sch, nl, url5, qry, frag)))"

definition splitparams :: "string \<Rightarrow> string \<times> string" where
  \<comment> \<open>\<open>_splitparams\<close> of a string that contains a semicolon: split at the first
      semicolon of the last path segment, if it has one\<close>
  "splitparams url =
     (if CHR ''/'' \<in> set url then
        (let last_seg = rev (takeWhile (\<lambda>c. c \<noteq> CHR ''/'') (rev url));
             front = take (length url - length last_seg) url
         in if CHR '';'' \<in> set last_seg
            then (front @ fst (split_once CHR '';'' last_seg), snd (split_once CHR '';'' last_seg))
            else (url, ''''))
      else split_once CHR '';'' url)"

definition urlparse :: "ip_oracle \<Rightarrow> string \<Rightarrow> string \<Rightarrow> py_exception + parse_result" where
  \<comment> \<open>\<open>urlparse(url, scheme)\<close>\<close>
  "urlparse ipaddr url scheme0 =
     (case urlsplit ipaddr url scheme0 of
        Inl e \<Rightarrow> Inl e
      | Inr (sch, nl, p, qry, frag) \<Rightarrow>
          (let (p', prm) =
                 (if sch \<in> set uses_params \<and> CHR '';'' \<in> set p then splitparams p else (p, ''''))
           in Inr \<lparr>scheme = sch, netloc = nl, path = p', params = prm,
                    query = qry, fragment = frag\<rparr>))"

definition urlunsplit :: "string \<Rightarrow> string \<Rightarrow> string \<Rightarrow> string \<Rightarrow> string \<Rightarrow> string" where
  "urlunsplit sch nl url qry frag =
     (let url1 =
            (if nl \<noteq> '''' \<or> (sch \<noteq> '''' \<and> sch \<in> set uses_netloc) \<or> take 2 url = ''//''
             then ''//'' @ nl @ (if url \<noteq> '''' \<and> take 1 url \<noteq> ''/'' then ''/'' @ url else url)
             else url);
          url2 = (if sch \<noteq> '''' then sch @ '':'' @ url1 else url1);
          url3 = (if qry \<noteq> '''' then url2 @ ''?'' @ qry else url2)
      in if frag \<noteq> '''' then url3 @ ''#'' @ frag else url3)"

definition urlunparse :: "parse_result \<Rightarrow> string" where
  "urlunparse r =
     urlunsplit (scheme r) (netloc r)
       (if params r \<noteq> '''' then path r @ '';'' @ params r else path r)
       (query r) (fragment r)"

fun resolve_segments :: "string list \<Rightarrow> string list \<Rightarrow> string list" where
  \<comment> \<open>the loop of \<open>urljoin\<close> over the segments; the second argument is
      \<open>resolved_path\<close>, whose \<open>pop()\<close> on the empty list is ignored\<close>
  "resolve_segments [] resolved = resolved"
| "resolve_segments (seg # segs) resolved =
     (if seg = ''..'' then resolve_segments segs (butlast resolved)
      else if seg = ''.'' then resolve_segments segs resolved
      else resolve_segments segs (resolved @ [seg]))"

definition filter_middle :: "string list \<Rightarrow> string list" where
  \<comment> \<open>\<open>segments[1:-1] = filter(None, segments[1:-1])\<close>\<close>
  "filter_middle segs =
     (if length segs < 2 then segs
      else hd segs # filter (\<lambda>s. s \<noteq> '''') (butlast (tl segs)) @ [last segs])"

definition join_paths :: "parse_result \<Rightarrow> parse_result \<Rightarrow> string \<Rightarrow> string" where
  \<comment> \<open>the end of \<open>urljoin\<close>: the path of the reference is merged into the path of
      the base; the third argument is the \<open>netloc\<close> chosen before\<close>
  "join_paths b r nl =
     (let base_parts0 = split_sep CHR ''/'' (path b);
          base_parts = (if last base_parts0 \<noteq> '''' then butlast base_parts0 else base_parts0);
          segments =
            (if take 1 (path r) = ''/'' then split_sep CHR ''/'' (path r)
             else filter_middle (base_parts @ split_sep CHR ''/'' (path r)));
          resolved0 = resolve_segments segments [];
          resolved =
            (if last segments = ''.'' \<or> last segments = ''..'' then resolved0 @ ['''']
             else resolved0);
          joined = join_sep CHR ''/'' resolved
      in urlunparse (r\<lparr>netloc := nl, path := (if joined \<noteq> '''' then joined else ''/'')\<rparr>))"

definition urljoin :: "ip_oracle \<Rightarrow> string \<Rightarrow> string \<Rightarrow> py_exception + string" where
  \<comment> \<open>\<open>urljoin(base, url)\<close>\<close>
  "urljoin ipaddr base url =
     (if base = '''' then Inr url
      else if url = '''' then Inr base
      else
        case urlparse ipaddr base '''' of
          Inl e \<Rightarrow> Inl e
        | Inr b \<Rightarrow>
           (case urlparse ipaddr url (scheme b) of
              Inl e \<Rightarrow> Inl e
            | Inr r \<Rightarrow>
               if scheme r \<noteq> scheme b \<or> scheme r \<notin> set uses_relative then Inr url
               else if scheme r \<in> set uses_netloc \<and> netloc r \<noteq> ''''
               then Inr (urlunparse r)
               else
                 (let nl = (if scheme r \<in> set uses_netloc then netloc b else netloc r)
                  in if path r = '''' \<and> params r = '''' then
                       Inr (urlunparse (r\<lparr>netloc := nl, path := path b, params := params b,
                              query := (if query r = '''' then query b else query r)\<rparr>))
                     else Inr (join_paths b r nl))))"

subsection \<open>The world outside the script\<close>

text \<open>
  \<open>requests.get\<close> and \<open>requests.head\<close> answer with a response or raise; the
  parser answers with the \<open>href\<close> values of the anchors of a page, in document order
  (\<open>soup.find_all('a', href=True)\<close>, then \<open>link['href']\<close>). They are
  oracles, like \<open>ipaddress.ip_address\<close>: the theorems below hold for every choice of
  them.
\<close>

record response =
  status_code :: int
  reason :: string
  url :: string
  resp_text :: string

record world =
  ip_address :: ip_oracle
  requests_get :: "string \<Rightarrow> py_exception + response"
  requests_head :: "string \<Rightarrow> py_exception + response"
  find_all_a_href :: "string \<Rightarrow> string list"

datatype level = INFO | WARNING | ERROR

datatype event =
  Log level string     \<comment> \<open>a line of \<open>logging\<close>, without its time stamp\<close>
  | Print string       \<comment> \<open>a call of \<open>print\<close>\<close>
  | HttpGet string     \<comment> \<open>\<open>requests.get\<close> of this URL\<close>
  | HttpHead string    \<comment> \<open>\<open>requests.head\<close> of this URL\<close>

definition raise_for_status :: "response \<Rightarrow> py_exception option" where
  \<comment> \<open>\<open>Response.raise_for_status\<close> of \<open>requests\<close>: an \<open>HTTPError\<close> for the
      statuses 400 to 599, and nothing otherwise\<close>
  "raise_for_status r =
     (if 400 \<le> status_code r \<and> status_code r < 500 then
        Some \<lparr>classes = [HTTPError, RequestException],
              message = str_int (status_code r) @ '' Client Error: '' @ reason r
                        @ '' for url: '' @ url r\<rparr>
      else if 500 \<le> status_code r \<and> status_code r < 600 then
        Some \<lparr>classes = [HTTPError, RequestException],
              message = str_int (status_code r) @ '' Server Error: '' @ reason r
                        @ '' for url: '' @ url r\<rparr>
      else None)"

subsection \<open>\<open>is_valid_url\<close> and \<open>get_all_links\<close>\<close>

definition is_valid_url :: "ip_oracle \<Rightarrow> string \<Rightarrow> py_exception + bool" where
  "is_valid_url ipaddr u =
     (case urlparse ipaddr u '''' of
        Inl e \<Rightarrow> Inl e
      | Inr parsed \<Rightarrow> Inr (scheme parsed \<noteq> '''' \<and> netloc parsed \<noteq> ''''))"

definition skipped_prefix :: "string \<Rightarrow> bool" where
  \<comment> \<open>the test of line 48\<close>
  "skipped_prefix href =
     (startswith href ''#'' \<or> startswith href ''mailto:'' \<or> startswith href ''javascript:'')"

definition normalize :: "ip_oracle \<Rightarrow> string \<Rightarrow> string \<Rightarrow> py_exception + string option" where
  \<comment> \<open>the body of the loop of \<open>get_all_links\<close> (lines 45 to 57) for one \<open>href\<close>:
      \<open>Some\<close> of the URL that is added to the set, \<open>None\<close> when nothing is added\<close>
  "normalize ipaddr base_url href =
     (if skipped_prefix href then Inr None
      else
        case urljoin ipaddr base_url href of
          Inl e \<Rightarrow> Inl e
        | Inr absolute_url \<Rightarrow>
            (case is_valid_url ipaddr absolute_url of
               Inl e \<Rightarrow> Inl e
             | Inr ok \<Rightarrow> Inr (if ok then Some absolute_url else None)))"

definition set_add :: "string \<Rightarrow> string list \<Rightarrow> string list" where
  \<comment> \<open>\<open>links_to_check.add(u)\<close>: the set is the list of its elements in the order of
      their first insertion\<close>
  "set_add u links = (if u \<in> set links then links else links @ [u])"

fun scan_hrefs ::
  "ip_oracle \<Rightarrow> string \<Rightarrow> string list \<Rightarrow> string list \<Rightarrow> string list \<times> py_exception option" where
  \<comment> \<open>the loop of lines 44 to 57: the set built so far, and the exception that ended
      the loop early, if any\<close>
  "scan_hrefs ipaddr base_url [] links = (links, None)"
| "scan_hrefs ipaddr base_url (href # hrefs) links =
     (case normalize ipaddr base_url href of
        Inl e \<Rightarrow> (links, Some e)
      | Inr None \<Rightarrow> scan_hrefs ipaddr base_url hrefs links
      | Inr (Some absolute_url) \<Rightarrow> scan_hrefs ipaddr base_url hrefs (set_add absolute_url links))"

definition except_request_exception ::
  "string \<Rightarrow> py_exception \<Rightarrow> string list \<Rightarrow> (py_exception + string list) \<times> event list" where
  \<comment> \<open>the \<open>except\<close> clause of lines 59 and 60, and the \<open>return\<close> after it: an
      exception of another class leaves the function\<close>
  "except_request_exception base_url e links =
     (if isinstance e RequestException
      then (Inr links, [Log ERROR (''Gagal mengambil '' @ base_url @ '': '' @ message e)])
      else (Inl e, []))"

definition get_all_links :: "world \<Rightarrow> string \<Rightarrow> (py_exception + string list) \<times> event list" where
  "get_all_links w base_url =
     (let (res, evs) =
        (case requests_get w base_url of
           Inl e \<Rightarrow> except_request_exception base_url e []
         | Inr resp \<Rightarrow>
             (case raise_for_status resp of
                Some e \<Rightarrow> except_request_exception base_url e []
              | None \<Rightarrow>
                  (case scan_hrefs (ip_address w) base_url
                          (find_all_a_href w (resp_text resp)) [] of
                     (links, None) \<Rightarrow> (Inr links, [])
                   | (links, Some e) \<Rightarrow> except_request_exception base_url e links)))
      in (res, HttpGet base_url # evs))"

subsection \<open>\<open>check_link\<close>\<close>

definition check_link ::
  "world \<Rightarrow> string set \<Rightarrow> string
     \<Rightarrow> (py_exception + (int option \<times> string)) \<times> string set \<times> event list" where
  \<comment> \<open>the second argument and the second component of the result are the module-level
      set \<open>processed_urls\<close> before and after the call\<close>
  "check_link w processed u =
     (if u \<in> processed then (Inr (None, ''Skipped (Already Checked)''), processed, [])
      else
        (case requests_head w u of
           Inr resp \<Rightarrow>
             if status_code resp \<ge> 400
             then Inr (Some (status_code resp), ''Client/Server Error ('' @ reason resp @ '')'')
             else Inr (Some (status_code resp), ''OK'')
         | Inl e \<Rightarrow>
             if isinstance e Timeout then Inr (None, ''Timeout'')
             else if isinstance e TooManyRedirects then Inr (None, ''Too Many Redirects'')
             else if isinstance e ConnectionError then Inr (None, ''Connection Error'')
             else if isinstance e RequestException
             then Inr (None, ''Error Lainnya: '' @ message e)
             else Inl e,
         insert u processed, [HttpHead u]))"

subsection \<open>\<open>main\<close>\<close>

text \<open>
  The state of a scan holds the module-level set \<open>processed_urls\<close>, the two
  accumulators of \<open>main\<close> and the events emitted so far. Python leaves the order
  in which a set is iterated open; here \<open>main\<close> visits the links in the order of
  their first insertion, and the lemmas about the loop hold for every list of links.
\<close>

record scan_state =
  processed_urls :: "string set"
  broken_links :: "(string \<times> string) list"
  ok_links :: nat
  events :: "event list"

definition emit :: "event list \<Rightarrow> scan_state \<Rightarrow> scan_state" where
  "emit evs st = st\<lparr>events := events st @ evs\<rparr>"

definition progress_line :: "nat \<Rightarrow> nat \<Rightarrow> string \<Rightarrow> string" where
  \<comment> \<open>the text of line 135; \<open>i\<close> counts from 0, as \<open>enumerate\<close> does\<close>
  "progress_line i n_links link =
     ''  ('' @ str_nat (i + 1) @ ''/'' @ str_nat n_links @ '') Memeriksa: '' @ take 75 link @ ''...''"

definition check_one ::
  "world \<Rightarrow> nat \<Rightarrow> nat \<Rightarrow> string \<Rightarrow> scan_state \<Rightarrow> py_exception option \<times> scan_state" where
  \<comment> \<open>the body of the loop of lines 133 to 146 for one link; \<open>n_links\<close> is
      \<open>len(links_to_check)\<close>, and the first component of the result is the exception
      that \<open>check_link\<close> let through, if any\<close>
  "check_one w n_links i link st =
     (let st1 = emit [Print (progress_line i n_links link)] st
      in case check_link w (processed_urls st1) link of
           (Inl e, processed, evs) \<Rightarrow> (Some e, emit evs (st1\<lparr>processed_urls := processed\<rparr>))
         | (Inr (status, msg), processed, evs) \<Rightarrow>
             (let st2 = emit evs (st1\<lparr>processed_urls := processed\<rparr>)
              in case status of
                   None \<Rightarrow>
                     (None,
                      emit [Log WARNING (''  -> RUSAK: '' @ link @ '' (Alasan: '' @ msg @ '')'')]
                        (st2\<lparr>broken_links := broken_links st2 @ [(link, msg)]\<rparr>))
                 | Some code \<Rightarrow>
                     if code \<ge> 400 then
                       (None,
                        emit [Log WARNING (''  -> RUSAK: '' @ link @ '' (Status: ''
                                @ str_int code @ '' '' @ msg @ '')'')]
                          (st2\<lparr>broken_links :=
                                  broken_links st2 @ [(link, ''Status '' @ str_int code)]\<rparr>))
                     else (None, st2\<lparr>ok_links := ok_links st2 + 1\<rparr>)))"

fun check_links ::
  "world \<Rightarrow> nat \<Rightarrow> nat \<Rightarrow> string list \<Rightarrow> scan_state \<Rightarrow> py_exception option \<times> scan_state" where
  \<comment> \<open>the loop of lines 133 to 146 over the links that are left, \<open>i\<close> being the
      index of the first of them; an exception leaves the loop\<close>
  "check_links w n_links i [] st = (None, st)"
| "check_links w n_links i (link # links) st =
     (case check_one w n_links i link st of
        (Some e, st') \<Rightarrow> (Some e, st')
      | (None, st') \<Rightarrow> check_links w n_links (i + 1) links st')"

definition broken_line :: "string \<times> string \<Rightarrow> event" where
  \<comment> \<open>line 160\<close>
  "broken_line lr = Print (''- '' @ fst lr @ [CHR 0x0A] @ ''  (Alasan: '' @ snd lr @ '')'')"

definition report :: "string \<Rightarrow> nat \<Rightarrow> scan_state \<Rightarrow> event list" where
  \<comment> \<open>the final report, lines 149 to 162\<close>
  "report base_url n_links st =
     [Print (CHR 0x0A # replicate 30 CHR ''=''),
      Print ''--- LAPORAN PEMINDAIAN SELESAI ---'',
      Print (replicate 30 CHR ''=''),
      Print (''Halaman Dipindai : '' @ base_url),
      Print (''Total Tautan Diperiksa : '' @ str_nat n_links),
      Print (''Tautan Berfungsi : '' @ str_nat (ok_links st)),
      Print (''Tautan Rusak/Error : '' @ str_nat (length (broken_links st)))]
     @ (if broken_links st \<noteq> []
        then Print (CHR 0x0A # ''--- Daftar Tautan Rusak ---'') # map broken_line (broken_links st)
        else [])
     @ [Log INFO ''Pemeriksaan selesai.'']"

definition invalid_url_text :: "string \<Rightarrow> string" where
  \<comment> \<open>the text of line 115\<close>
  "invalid_url_text base_url =
     ''URL tidak valid: '' @ base_url @ ''. Pastikan menyertakan '' @ [CHR 0x27] @ ''http://''
       @ [CHR 0x27] @ '' atau '' @ [CHR 0x27] @ ''https://'' @ [CHR 0x27] @ ''.''"

definition main :: "world \<Rightarrow> string set \<Rightarrow> string \<Rightarrow> py_exception option \<times> scan_state" where
  \<comment> \<open>\<open>main()\<close> with \<open>args.url = base_url\<close>, entered with the module-level set
      \<open>processed_urls\<close> as the second argument says. The result is the exception that
      left \<open>main\<close>, if any, and the state at that moment.\<close>
  "main w processed base_url =
     (let st0 = \<lparr>processed_urls = processed, broken_links = [], ok_links = 0, events = []\<rparr>
      in case is_valid_url (ip_address w) base_url of
           Inl e \<Rightarrow> (Some e, st0)
         | Inr False \<Rightarrow> (None, emit [Log ERROR (invalid_url_text base_url)] st0)
         | Inr True \<Rightarrow>
             (let st1 = emit [Log INFO (''Memulai pemindaian di: '' @ base_url)] st0;
                  (res, evs) = get_all_links w base_url;
                  st2 = emit evs st1
              in case res of
                   Inl e \<Rightarrow> (Some e, st2)
                 | Inr links_to_check \<Rightarrow>
                     if links_to_check = [] then
                       (None, emit [Log WARNING
                          ''Tidak ada tautan eksternal yang ditemukan di halaman tersebut.''] st2)
                     else
                       (let st3 = emit [Log INFO (''Menemukan '' @ str_nat (length links_to_check)
                                          @ '' tautan unik. Memulai pemeriksaan...'')] st2
                        in case check_links w (length links_to_check) 0 links_to_check st3 of
                             (Some e, st4) \<Rightarrow> (Some e, st4)
                           | (None, st4) \<Rightarrow>
                               (None, emit (report base_url (length links_to_check) st4) st4))))"

definition run_script :: "world \<Rightarrow> string \<Rightarrow> py_exception option \<times> scan_state" where
  \<comment> \<open>the script run once from its entry point: \<open>processed_urls\<close> is the empty set
      of line 18\<close>
  "run_script w base_url = main w {} base_url"

subsection \<open>Notions used to state the properties\<close>

definition probe_fails :: "world \<Rightarrow> string \<Rightarrow> bool" where
  \<comment> \<open>the HEAD request of this URL raises, or is answered with a status of 400 or more\<close>
  "probe_fails w u =
     (case requests_head w u of Inl e \<Rightarrow> True | Inr resp \<Rightarrow> status_code resp \<ge> 400)"

definition probe_handled :: "world \<Rightarrow> string \<Rightarrow> bool" where
  \<comment> \<open>the HEAD request of this URL is answered, or raises an exception of one of the
      four classes that \<open>check_link\<close> names\<close>
  "probe_handled w u =
     (case requests_head w u of
        Inl e \<Rightarrow> isinstance e Timeout \<or> isinstance e TooManyRedirects
                 \<or> isinstance e ConnectionError \<or> isinstance e RequestException
      | Inr resp \<Rightarrow> True)"

definition is_request :: "event \<Rightarrow> bool" where
  "is_request ev = (case ev of HttpGet u \<Rightarrow> True | HttpHead u \<Rightarrow> True | _ \<Rightarrow> False)"

definition is_print :: "event \<Rightarrow> bool" where
  "is_print ev = (case ev of Print t \<Rightarrow> True | _ \<Rightarrow> False)"

definition is_error_log :: "event \<Rightarrow> bool" where
  "is_error_log ev = (case ev of Log lv t \<Rightarrow> lv = ERROR | _ \<Rightarrow> False)"

definition no_links_warning :: event where
  \<comment> \<open>line 124\<close>
  "no_links_warning =
     Log WARNING ''Tidak ada tautan eksternal yang ditemukan di halaman tersebut.''"

subsection \<open>A sample world\<close>

text \<open>
  Some pages and servers on which the functions are run. \<open>site.test\<close> is the page of
  the first scenario of the specification; \<open>hub.test\<close> links to one server for each
  outcome of a probe.
\<close>

definition demo_ip :: ip_oracle where
  "demo_ip h =
     (if h = ''::1'' then Inr IPv6
      else if h = ''127.0.0.1'' then Inr IPv4
      else Inl (value_error ([CHR 0x27] @ h @ [CHR 0x27]
                  @ '' does not appear to be an IPv4 or IPv6 address'')))"

definition site_page :: string where
  "site_page =
     ''<a href=/about>A</a><a href=#top>T</a><a href=mailto:a@b.com>M</a><a href=https://other.test/ok>O</a>''"

definition hub_page :: string where
  "hub_page =
     ''<a href=/ok>1</a><a href=missing>2</a><a href=/slow>3</a><a href=/loop>4</a><a href=//down.test/>5</a><a href=ftp://files.test/f>6</a><a href=tel:12345>7</a><a href=https://hub.test/ok>8</a>''"

definition connect_timeout :: py_exception where
  \<comment> \<open>\<open>requests.exceptions.ConnectTimeout\<close> is both a \<open>ConnectionError\<close> and a
      \<open>Timeout\<close>\<close>
  "connect_timeout =
     \<lparr>classes = [ConnectionError, Timeout, RequestException],
      message = ''Connection to hub.test timed out.''\<rparr>"

definition too_many_redirects :: py_exception where
  "too_many_redirects =
     \<lparr>classes = [TooManyRedirects, RequestException], message = ''Exceeded 30 redirects.''\<rparr>"

definition connection_error :: py_exception where
  "connection_error =
     \<lparr>classes = [ConnectionError, RequestException],
      message = ''Failed to establish a new connection''\<rparr>"

definition invalid_schema :: py_exception where
  \<comment> \<open>\<open>requests.exceptions.InvalidSchema\<close>, raised for a scheme that \<open>requests\<close>
      has no adapter for\<close>
  "invalid_schema =
     \<lparr>classes = [RequestException, ValueError],
      message = ''No connection adapters were found''\<rparr>"

definition answer :: "string \<Rightarrow> int \<Rightarrow> string \<Rightarrow> string \<Rightarrow> response" where
  "answer u code phrase body =
     \<lparr>status_code = code, reason = phrase, url = u, resp_text = body\<rparr>"

definition demo_world :: world where
  "demo_world =
     \<lparr>ip_address = demo_ip,
      requests_get = (\<lambda>u.
        if u = ''https://site.test'' then Inr (answer u 200 ''OK'' site_page)
        else if u = ''https://hub.test'' then Inr (answer u 200 ''OK'' hub_page)
        else if u = ''https://empty.test'' then Inr (answer u 200 ''OK'' ''<p>nothing</p>'')
        else if u = ''https://choices.test''
        then Inr (answer u 300 ''Multiple Choices'' site_page)
        else if u = ''https://gone.test'' then Inr (answer u 404 ''Not Found'' site_page)
        else Inl connection_error),
      requests_head = (\<lambda>u.
        if u = ''https://site.test/about'' \<or> u = ''https://other.test/ok''
           \<or> u = ''https://hub.test/ok''
        then Inr (answer u 200 ''OK'' '''')
        else if u = ''https://hub.test/missing'' then Inr (answer u 404 ''Not Found'' '''')
        else if u = ''https://hub.test/399'' then Inr (answer u 399 ''Unassigned'' '''')
        else if u = ''https://hub.test/400'' then Inr (answer u 400 ''Bad Request'' '''')
        else if u = ''https://hub.test/slow'' then Inl connect_timeout
        else if u = ''https://hub.test/loop'' then Inl too_many_redirects
        else if u = ''ftp://files.test/f'' then Inl invalid_schema
        else Inl connection_error),
      find_all_a_href = (\<lambda>t.
        if t = site_page
        then [''/about'', ''#top'', ''mailto:a@b.com'', ''https://other.test/ok'']
        else if t = hub_page
        then [''/ok'', ''missing'', ''/slow'', ''/loop'', ''//down.test/'',
              ''ftp://files.test/f'', ''tel:12345'', ''https://hub.test/ok'']
        else [])\<rparr>"

definition quiet_world :: world where
  \<comment> \<open>the sample world, but every page is fetched and has no anchor\<close>
  "quiet_world =
     demo_world\<lparr>requests_get := (\<lambda>u. Inr (answer u 200 ''OK'' ''<p>nothing</p>''))\<rparr>"

section \<open>Properties\<close>

subsection \<open>\<open>check_link\<close>\<close>

lemma check_link_marked:
  "u \<in> processed \<Longrightarrow>
   check_link w processed u = (Inr (None, ''Skipped (Already Checked)''), processed, [])"
  by (simp add: check_link_def)

lemma check_link_unmarked:
  "u \<notin> processed \<Longrightarrow> snd (check_link w processed u) = (insert u processed, [HttpHead u])"
  by (simp add: check_link_def)

text \<open>
  C2. A probe that obtains a response is classified by the status alone, at the boundary
  400: the result is the status with \<open>OK\<close> below 400, and the status with the
  client-or-server-error text, which carries the reason phrase, from 400 on. So 399 is
  \<open>OK\<close> and 400 is an error.
\<close>

theorem check_link_boundary_400:
  assumes "u \<notin> processed" and "requests_head w u = Inr resp"
  shows "fst (check_link w processed u) =
           Inr (Some (status_code resp),
                if status_code resp < 400 then ''OK''
                else ''Client/Server Error ('' @ reason resp @ '')'')"
  using assms by (simp add: check_link_def)

theorem check_link_boundary_400_witness:
  "''https://hub.test/399'' \<notin> ({} :: string set)
   \<and> requests_head demo_world ''https://hub.test/399''
       = Inr (answer ''https://hub.test/399'' 399 ''Unassigned'' '''')
   \<and> fst (check_link demo_world {} ''https://hub.test/399'') = Inr (Some 399, ''OK'')
   \<and> requests_head demo_world ''https://hub.test/400''
       = Inr (answer ''https://hub.test/400'' 400 ''Bad Request'' '''')
   \<and> fst (check_link demo_world {} ''https://hub.test/400'')
       = Inr (Some 400, ''Client/Server Error (Bad Request)'')"
  using check_link_boundary_400 [of "''https://hub.test/399''" "{}" demo_world
          "answer ''https://hub.test/399'' 399 ''Unassigned'' ''''"]
        check_link_boundary_400 [of "''https://hub.test/400''" "{}" demo_world
          "answer ''https://hub.test/400'' 400 ''Bad Request'' ''''"]
  by (simp add: demo_world_def answer_def)

subsection \<open>The loop of \<open>main\<close>\<close>

lemma check_one_marked:
  "link \<in> processed_urls st \<Longrightarrow>
   check_one w n i link st =
     (None, st\<lparr>broken_links := broken_links st @ [(link, ''Skipped (Already Checked)'')],
               events := events st @ [Print (progress_line i n link),
                 Log WARNING (''  -> RUSAK: '' @ link @ '' (Alasan: ''
                                @ ''Skipped (Already Checked)'' @ '')'')]\<rparr>)"
  by (simp add: check_one_def check_link_def emit_def)

lemma check_one_registry:
  "processed_urls (snd (check_one w n i link st)) = insert link (processed_urls st)"
  by (auto simp: check_one_def check_link_def emit_def Let_def split: sum.splits option.splits)

lemma check_one_heads:
  "count_list (events (snd (check_one w n i link st))) (HttpHead u) =
     count_list (events st) (HttpHead u)
     + (if u = link \<and> link \<notin> processed_urls st then 1 else 0)"
  by (auto simp: check_one_def check_link_def emit_def Let_def split: sum.splits option.splits)

lemma check_one_fresh:
  assumes "link \<notin> processed_urls st" and "probe_handled w link"
  shows "\<exists>st'. check_one w n i link st = (None, st')
           \<and> map fst (broken_links st') =
               map fst (broken_links st) @ (if probe_fails w link then [link] else [])
           \<and> ok_links st' = ok_links st + (if probe_fails w link then 0 else 1)"
  using assms
  by (auto simp: check_one_def check_link_def emit_def Let_def probe_handled_def probe_fails_def
           split: sum.splits option.splits)

lemma check_links_registry:
  "processed_urls (snd (check_links w n i links st)) \<supseteq> processed_urls st"
proof (induction links arbitrary: st i)
  case Nil
  show ?case by simp
next
  case (Cons link links)
  obtain r st' where step: "check_one w n i link st = (r, st')"
    by (cases "check_one w n i link st")
  have reg: "processed_urls st' = insert link (processed_urls st)"
    using check_one_registry [of w n i link st] step by simp
  show ?case
  proof (cases r)
    case None
    with step reg Cons.IH [where st = st' and i = "i + 1"] show ?thesis by auto
  next
    case (Some e)
    with step reg show ?thesis by auto
  qed
qed

lemma check_links_heads:
  "count_list (events (snd (check_links w n i links st))) (HttpHead u)
     \<le> count_list (events st) (HttpHead u) + (if u \<in> processed_urls st then 0 else 1)"
proof (induction links arbitrary: st i)
  case Nil
  show ?case by simp
next
  case (Cons link links)
  obtain r st' where step: "check_one w n i link st = (r, st')"
    by (cases "check_one w n i link st")
  have reg: "processed_urls st' = insert link (processed_urls st)"
    using check_one_registry [of w n i link st] step by simp
  have cnt: "count_list (events st') (HttpHead u) =
               count_list (events st) (HttpHead u)
               + (if u = link \<and> link \<notin> processed_urls st then 1 else 0)"
    using check_one_heads [of w n i link st u] step by simp
  show ?case
  proof (cases r)
    case None
    with step reg cnt Cons.IH [where st = st' and i = "i + 1"] show ?thesis by (auto split: if_splits)
  next
    case (Some e)
    with step reg cnt show ?thesis by (auto split: if_splits)
  qed
qed

lemma check_links_fresh:
  assumes "distinct links" and "set links \<inter> processed_urls st = {}"
    and "list_all (probe_handled w) links"
  shows "\<exists>st'. check_links w n i links st = (None, st')
           \<and> map fst (broken_links st') = map fst (broken_links st) @ filter (probe_fails w) links
           \<and> ok_links st' = ok_links st + length (filter (\<lambda>l. \<not> probe_fails w l) links)
           \<and> count_list (events st') (HttpHead u) =
               count_list (events st) (HttpHead u) + (if u \<in> set links then 1 else 0)"
  using assms
proof (induction links arbitrary: st i)
  case Nil
  show ?case by simp
next
  case (Cons link links)
  from Cons.prems have fresh: "link \<notin> processed_urls st" and handled: "probe_handled w link"
    by auto
  from check_one_fresh [OF fresh handled, of n i]
  obtain st1 where step: "check_one w n i link st = (None, st1)"
    and br: "map fst (broken_links st1) =
               map fst (broken_links st) @ (if probe_fails w link then [link] else [])"
    and ok: "ok_links st1 = ok_links st + (if probe_fails w link then 0 else 1)"
    by blast
  have reg: "processed_urls st1 = insert link (processed_urls st)"
    using check_one_registry [of w n i link st] step by simp
  have cnt: "count_list (events st1) (HttpHead u) =
               count_list (events st) (HttpHead u) + (if u = link then 1 else 0)"
    using check_one_heads [of w n i link st u] step fresh by simp
  from Cons.prems reg have "distinct links" and "set links \<inter> processed_urls st1 = {}"
    and "list_all (probe_handled w) links"
    by auto
  from Cons.IH [OF this, where i = "i + 1"]
  obtain st2 where rest: "check_links w n (i + 1) links st1 = (None, st2)"
    and br2: "map fst (broken_links st2) = map fst (broken_links st1) @ filter (probe_fails w) links"
    and ok2: "ok_links st2 = ok_links st1 + length (filter (\<lambda>l. \<not> probe_fails w l) links)"
    and cnt2: "count_list (events st2) (HttpHead u) =
                 count_list (events st1) (HttpHead u) + (if u \<in> set links then 1 else 0)"
    by blast
  from Cons.prems have "link \<notin> set links" by simp
  with step rest br br2 ok ok2 cnt cnt2 show ?case by auto
qed

subsection \<open>\<open>get_all_links\<close>\<close>

lemma normalize_valid:
  "normalize ipaddr b href = Inr (Some u) \<Longrightarrow> is_valid_url ipaddr u = Inr True"
  by (auto simp: normalize_def split: if_splits sum.splits)

lemma scan_hrefs_invariant:
  assumes "distinct links" and "list_all (\<lambda>u. is_valid_url ipaddr u = Inr True) links"
  shows "distinct (fst (scan_hrefs ipaddr b hrefs links))
         \<and> list_all (\<lambda>u. is_valid_url ipaddr u = Inr True) (fst (scan_hrefs ipaddr b hrefs links))"
  using assms
proof (induction hrefs arbitrary: links)
  case Nil
  then show ?case by simp
next
  case (Cons href hrefs)
  show ?case
  proof (cases "normalize ipaddr b href")
    case (Inl e)
    with Cons.prems show ?thesis by simp
  next
    case (Inr found)
    show ?thesis
    proof (cases found)
      case None
      with Inr Cons show ?thesis by simp
    next
      case (Some u)
      with Inr have "is_valid_url ipaddr u = Inr True" by (simp add: normalize_valid)
      with Cons.prems have "distinct (set_add u links)"
        and "list_all (\<lambda>u. is_valid_url ipaddr u = Inr True) (set_add u links)"
        by (simp_all add: set_add_def)
      from Cons.IH [OF this] Inr Some show ?thesis by simp
    qed
  qed
qed

lemma get_all_links_invariant:
  assumes "fst (get_all_links w b) = Inr links"
  shows "distinct links \<and> list_all (\<lambda>u. is_valid_url (ip_address w) u = Inr True) links"
proof -
  have found: "\<exists>hrefs. fst (scan_hrefs (ip_address w) b hrefs []) = links"
    if "scan_hrefs (ip_address w) b hs [] = (links, r)" for hs r
    using that by (intro exI [of _ hs]) simp
  have "links = [] \<or> (\<exists>hrefs. fst (scan_hrefs (ip_address w) b hrefs []) = links)"
    using assms
    by (auto simp: get_all_links_def except_request_exception_def
             split: sum.splits option.splits prod.splits if_splits dest: found)
  moreover have "distinct (fst (scan_hrefs (ip_address w) b hrefs []))
      \<and> list_all (\<lambda>u. is_valid_url (ip_address w) u = Inr True)
           (fst (scan_hrefs (ip_address w) b hrefs []))" for hrefs
    by (rule scan_hrefs_invariant) simp_all
  ultimately show ?thesis by auto
qed

lemma get_all_links_events:
  "snd (get_all_links w b) = [HttpGet b]
   \<or> (\<exists>m. snd (get_all_links w b) = [HttpGet b, Log ERROR m])"
  by (auto simp: get_all_links_def except_request_exception_def
           split: sum.splits option.splits prod.splits)

lemma get_all_links_no_heads:
  "get_all_links w b = (res, evs) \<Longrightarrow> count_list evs (HttpHead u) = 0"
  using get_all_links_events [of w b] by auto

subsection \<open>The paths through \<open>main\<close>\<close>

lemma main_raises_at_once:
  "is_valid_url (ip_address w) b = Inl e \<Longrightarrow>
   main w P b = (Some e, \<lparr>processed_urls = P, broken_links = [], ok_links = 0, events = []\<rparr>)"
  by (simp add: main_def)

lemma main_invalid:
  "is_valid_url (ip_address w) b = Inr False \<Longrightarrow>
   main w P b =
     (None, \<lparr>processed_urls = P, broken_links = [], ok_links = 0,
             events = [Log ERROR (invalid_url_text b)]\<rparr>)"
  by (simp add: main_def emit_def)

lemma main_extraction_raises:
  "is_valid_url (ip_address w) b = Inr True \<Longrightarrow> get_all_links w b = (Inl e, evs) \<Longrightarrow>
   main w P b =
     (Some e, \<lparr>processed_urls = P, broken_links = [], ok_links = 0,
               events = Log INFO (''Memulai pemindaian di: '' @ b) # evs\<rparr>)"
  by (simp add: main_def emit_def)

lemma main_no_links:
  "is_valid_url (ip_address w) b = Inr True \<Longrightarrow> get_all_links w b = (Inr [], evs) \<Longrightarrow>
   main w P b =
     (None, \<lparr>processed_urls = P, broken_links = [], ok_links = 0,
             events = Log INFO (''Memulai pemindaian di: '' @ b) # evs @ [no_links_warning]\<rparr>)"
  by (simp add: main_def emit_def no_links_warning_def)

lemma main_probing:
  assumes "is_valid_url (ip_address w) b = Inr True"
    and "get_all_links w b = (Inr links, evs)" and "links \<noteq> []"
    and "check_links w (length links) 0 links
           \<lparr>processed_urls = P, broken_links = [], ok_links = 0,
            events = Log INFO (''Memulai pemindaian di: '' @ b) # evs
              @ [Log INFO (''Menemukan '' @ str_nat (length links)
                   @ '' tautan unik. Memulai pemeriksaan...'')]\<rparr> = (r, st)"
  shows "main w P b =
           (r, if r = None then st\<lparr>events := events st @ report b (length links) st\<rparr> else st)"
  using assms by (auto simp: main_def emit_def split: option.splits)

lemma report_no_heads: "count_list (report b n st) (HttpHead u) = 0"
proof -
  have "count_list (map broken_line xs) (HttpHead u) = 0" for xs
    by (induction xs) (simp_all add: broken_line_def)
  then show ?thesis by (simp add: report_def)
qed

subsection \<open>The registry of probed URLs\<close>

lemma main_registry_heads:
  "P \<subseteq> processed_urls (snd (main w P b))
   \<and> count_list (events (snd (main w P b))) (HttpHead u) \<le> (if u \<in> P then 0 else 1)"
proof (cases "is_valid_url (ip_address w) b")
  case (Inl e)
  then show ?thesis by (simp add: main_raises_at_once)
next
  case (Inr ok)
  show ?thesis
  proof (cases ok)
    case False
    with Inr show ?thesis by (simp add: main_invalid)
  next
    case True
    with Inr have valid: "is_valid_url (ip_address w) b = Inr True" by simp
    obtain res evs where g: "get_all_links w b = (res, evs)"
      by (cases "get_all_links w b")
    have quiet: "count_list evs (HttpHead u) = 0"
      using g by (rule get_all_links_no_heads)
    show ?thesis
    proof (cases res)
      case (Inl e)
      with valid g quiet show ?thesis by (simp add: main_extraction_raises)
    next
      case (Inr links)
      show ?thesis
      proof (cases "links = []")
        case True
        with valid g quiet Inr show ?thesis
          by (simp add: main_no_links no_links_warning_def)
      next
        case False
        let ?st = "\<lparr>processed_urls = P, broken_links = [], ok_links = 0,
            events = Log INFO (''Memulai pemindaian di: '' @ b) # evs
              @ [Log INFO (''Menemukan '' @ str_nat (length links)
                   @ '' tautan unik. Memulai pemeriksaan...'')]\<rparr>"
        obtain r st' where l: "check_links w (length links) 0 links ?st = (r, st')"
          by (cases "check_links w (length links) 0 links ?st")
        have m: "main w P b =
            (r, if r = None then st'\<lparr>events := events st' @ report b (length links) st'\<rparr>
                else st')"
          using valid g Inr False l by (simp add: main_probing)
        have "P \<subseteq> processed_urls st'"
          using check_links_registry [of ?st w "length links" 0 links] l by simp
        moreover have "count_list (events st') (HttpHead u) \<le> (if u \<in> P then 0 else 1)"
          using check_links_heads [of w "length links" 0 links ?st u] l quiet by simp
        ultimately show ?thesis
          using m by (auto simp: report_no_heads split: if_splits)
      qed
    qed
  qed
qed

text \<open>
  C6. Probing a URL that is already in the registry returns no status and the text
  \<open>Skipped\<close>, sends no request and leaves the registry as it is. Probing a URL that is
  not in it adds the URL to the registry and sends one HEAD request, whatever the request
  then does. So the registry only grows, in one probe, in the loop and in a whole scan,
  and a scan sends at most one HEAD request to a URL, and none to a URL that was in the
  registry when the scan began.
\<close>

theorem registry_probes_each_url_once:
  "(u \<in> processed \<longrightarrow>
      check_link w processed u = (Inr (None, ''Skipped (Already Checked)''), processed, []))
   \<and> (u \<notin> processed \<longrightarrow>
        snd (check_link w processed u) = (insert u processed, [HttpHead u]))
   \<and> processed_urls st \<subseteq> processed_urls (snd (check_links w n i links st))
   \<and> count_list (events (snd (check_links w n i links st))) (HttpHead u)
       \<le> count_list (events st) (HttpHead u) + (if u \<in> processed_urls st then 0 else 1)
   \<and> processed \<subseteq> processed_urls (snd (main w processed base_url))
   \<and> count_list (events (snd (main w processed base_url))) (HttpHead u)
       \<le> (if u \<in> processed then 0 else 1)"
  using check_link_marked [of u processed w] check_link_unmarked [of u processed w]
    check_links_registry [of st w n i links] check_links_heads [of w n i links st u]
    main_registry_heads [of processed w base_url u]
  by simp

theorem registry_probes_each_url_once_witness:
  "''https://hub.test/ok'' \<in> {''https://hub.test/ok''}
   \<and> check_link demo_world {''https://hub.test/ok''} ''https://hub.test/ok''
       = (Inr (None, ''Skipped (Already Checked)''), {''https://hub.test/ok''}, [])
   \<and> ''https://hub.test/slow'' \<notin> {''https://hub.test/ok''}
   \<and> snd (check_link demo_world {''https://hub.test/ok''} ''https://hub.test/slow'')
       = ({''https://hub.test/slow'', ''https://hub.test/ok''}, [HttpHead ''https://hub.test/slow''])
   \<and> count_list (events (snd (main demo_world {''https://hub.test/ok''} ''https://hub.test'')))
        (HttpHead ''https://hub.test/ok'') \<le> 0
   \<and> count_list (events (snd (main demo_world {''https://hub.test/ok''} ''https://hub.test'')))
        (HttpHead ''https://hub.test/slow'') \<le> 1"
  using registry_probes_each_url_once
          [where u = "''https://hub.test/ok''" and processed = "{''https://hub.test/ok''}"
             and w = demo_world and base_url = "''https://hub.test''" and links = "[]"
             and st = "\<lparr>processed_urls = {}, broken_links = [], ok_links = 0, events = []\<rparr>"]
        registry_probes_each_url_once
          [where u = "''https://hub.test/slow''" and processed = "{''https://hub.test/ok''}"
             and w = demo_world and base_url = "''https://hub.test''" and links = "[]"
             and st = "\<lparr>processed_urls = {}, broken_links = [], ok_links = 0, events = []\<rparr>"]
  by simp

subsection \<open>An invalid seed URL\<close>

text \<open>
  C9. When the seed URL parses to an empty scheme or an empty network location,
  \<open>main\<close> logs the invalid-URL error and returns: nothing else is emitted, so no
  request is sent, and the registry is untouched.
\<close>

theorem invalid_seed_sends_no_request:
  assumes "urlparse (ip_address w) base_url '''' = Inr parsed"
    and "scheme parsed = '''' \<or> netloc parsed = ''''"
  shows "main w processed base_url =
           (None, \<lparr>processed_urls = processed, broken_links = [], ok_links = 0,
                   events = [Log ERROR (invalid_url_text base_url)]\<rparr>)
         \<and> filter is_request (events (snd (main w processed base_url))) = []"
proof -
  from assms have "is_valid_url (ip_address w) base_url = Inr False"
    by (auto simp: is_valid_url_def)
  then show ?thesis by (simp add: main_invalid is_request_def)
qed

theorem invalid_seed_sends_no_request_witness:
  "urlparse (ip_address demo_world) ''not-a-url'' ''''
     = Inr \<lparr>scheme = '''', netloc = '''', path = ''not-a-url'', params = '''',
            query = '''', fragment = ''''\<rparr>
   \<and> main demo_world {} ''not-a-url'' =
       (None, \<lparr>processed_urls = {}, broken_links = [], ok_links = 0,
               events = [Log ERROR (invalid_url_text ''not-a-url'')]\<rparr>)
   \<and> filter is_request (events (snd (main demo_world {} ''not-a-url''))) = []"
proof -
  have parsed: "urlparse (ip_address demo_world) ''not-a-url'' ''''
     = Inr \<lparr>scheme = '''', netloc = '''', path = ''not-a-url'', params = '''',
            query = '''', fragment = ''''\<rparr>"
    by code_simp
  from invalid_seed_sends_no_request [OF parsed, of "{}"] parsed show ?thesis
    by (simp add: is_request_def)
qed

subsection \<open>Link extraction\<close>

text \<open>
  C1. For the base \<open>https://site.test\<close> and a page that is fetched without error and
  whose anchors have the targets \<open>/about\<close>, \<open>#top\<close>, \<open>mailto:a@b.com\<close> and
  \<open>https://other.test/ok\<close>, link extraction returns the set of exactly two URLs
  \<open>https://site.test/about\<close> and \<open>https://other.test/ok\<close>, whatever the other
  oracles of the world are.
\<close>

theorem scenario_one_extracts_two_links:
  assumes "requests_get w ''https://site.test'' = Inr resp"
    and "raise_for_status resp = None"
    and "find_all_a_href w (resp_text resp) =
           [''/about'', ''#top'', ''mailto:a@b.com'', ''https://other.test/ok'']"
  shows "fst (get_all_links w ''https://site.test'') =
           Inr [''https://site.test/about'', ''https://other.test/ok'']"
proof -
  have "normalize ip ''https://site.test'' ''/about'' = Inr (Some ''https://site.test/about'')"
    and "normalize ip ''https://site.test'' ''#top'' = Inr None"
    and "normalize ip ''https://site.test'' ''mailto:a@b.com'' = Inr None"
    and "normalize ip ''https://site.test'' ''https://other.test/ok''
           = Inr (Some ''https://other.test/ok'')" for ip
    by code_simp+
  with assms show ?thesis
    by (simp add: get_all_links_def set_add_def)
qed

theorem scenario_one_extracts_two_links_witness:
  "requests_get demo_world ''https://site.test''
     = Inr (answer ''https://site.test'' 200 ''OK'' site_page)
   \<and> raise_for_status (answer ''https://site.test'' 200 ''OK'' site_page) = None
   \<and> find_all_a_href demo_world (resp_text (answer ''https://site.test'' 200 ''OK'' site_page))
       = [''/about'', ''#top'', ''mailto:a@b.com'', ''https://other.test/ok'']
   \<and> fst (get_all_links demo_world ''https://site.test'')
       = Inr [''https://site.test/about'', ''https://other.test/ok'']"
proof -
  have "requests_get demo_world ''https://site.test''
     = Inr (answer ''https://site.test'' 200 ''OK'' site_page)"
    and "raise_for_status (answer ''https://site.test'' 200 ''OK'' site_page) = None"
    and "find_all_a_href demo_world (resp_text (answer ''https://site.test'' 200 ''OK'' site_page))
       = [''/about'', ''#top'', ''mailto:a@b.com'', ''https://other.test/ok'']"
    by (simp_all add: demo_world_def answer_def raise_for_status_def)
  then show ?thesis
    using scenario_one_extracts_two_links [of demo_world
            "answer ''https://site.test'' 200 ''OK'' site_page"]
    by simp
qed

text \<open>
  C3, as stated: a candidate is rejected if and only if it starts with \<open>#\<close>,
  \<open>mailto:\<close> or \<open>javascript:\<close>. The candidate \<open>tel:12345\<close> has none of these
  prefixes and is rejected all the same: it resolves to itself, a URL without a network
  location.
\<close>

theorem tel_link_rejected_without_prefix:
  "\<not> skipped_prefix ''tel:12345''
   \<and> normalize demo_ip ''https://site.test'' ''tel:12345'' = Inr None"
  by code_simp

text \<open>
  C3, amended. A candidate that starts with \<open>#\<close>, \<open>mailto:\<close> or
  \<open>javascript:\<close> is rejected whatever follows the prefix. A candidate without such a
  prefix is rejected exactly when the URL it resolves to parses to an empty scheme or an
  empty network location.
\<close>

theorem normalize_rejects_prefix_or_invalid:
  "normalize ip b (''#'' @ rest) = Inr None
   \<and> normalize ip b (''mailto:'' @ rest) = Inr None
   \<and> normalize ip b (''javascript:'' @ rest) = Inr None
   \<and> (\<not> skipped_prefix href \<longrightarrow>
        (normalize ip b href = Inr None) =
        (\<exists>u parsed. urljoin ip b href = Inr u \<and> urlparse ip u '''' = Inr parsed
            \<and> (scheme parsed = '''' \<or> netloc parsed = '''')))"
  by (auto simp: normalize_def skipped_prefix_def startswith_def is_valid_url_def
           split: sum.splits)

theorem normalize_rejects_prefix_or_invalid_witness:
  "\<not> skipped_prefix ''tel:12345''
   \<and> normalize demo_ip ''https://site.test'' ''tel:12345'' = Inr None
   \<and> (\<exists>u parsed. urljoin demo_ip ''https://site.test'' ''tel:12345'' = Inr u
         \<and> urlparse demo_ip u '''' = Inr parsed
         \<and> (scheme parsed = '''' \<or> netloc parsed = ''''))"
proof -
  have "\<not> skipped_prefix ''tel:12345''"
    and "normalize demo_ip ''https://site.test'' ''tel:12345'' = Inr None"
    by code_simp+
  then show ?thesis
    using normalize_rejects_prefix_or_invalid
            [of demo_ip "''https://site.test''" "[]" "''tel:12345''"]
    by simp
qed

text \<open>
  C5, at a failing input. The page of \<open>hub.test\<close> has an anchor to
  \<open>ftp://files.test/f\<close>. Its scheme is \<open>ftp\<close>, and link extraction puts it into
  the set of links to probe.
\<close>

theorem ftp_link_enters_checking_set:
  "urlparse demo_ip ''ftp://files.test/f'' '''' =
     Inr \<lparr>scheme = ''ftp'', netloc = ''files.test'', path = ''/f'', params = '''',
          query = '''', fragment = ''''\<rparr>
   \<and> fst (get_all_links demo_world ''https://hub.test'') =
       Inr [''https://hub.test/ok'', ''https://hub.test/missing'', ''https://hub.test/slow'',
            ''https://hub.test/loop'', ''https://down.test/'', ''ftp://files.test/f'']"
  by code_simp

subsection \<open>A page without links, and a page that cannot be fetched\<close>

lemma get_all_links_fetch_fails:
  assumes "(\<exists>e. requests_get w b = Inl e \<and> isinstance e RequestException)
           \<or> (\<exists>resp. requests_get w b = Inr resp
                \<and> 400 \<le> status_code resp \<and> status_code resp < 600)"
  shows "\<exists>m. get_all_links w b = (Inr [], [HttpGet b, Log ERROR (''Gagal mengambil '' @ b @ '': '' @ m)])"
  using assms
  by (auto simp: get_all_links_def except_request_exception_def raise_for_status_def isinstance_def)

lemma get_all_links_no_anchor:
  assumes "requests_get w b = Inr resp" and "raise_for_status resp = None"
    and "scan_hrefs (ip_address w) b (find_all_a_href w (resp_text resp)) [] = ([], None)"
  shows "get_all_links w b = (Inr [], [HttpGet b])"
  using assms by (simp add: get_all_links_def)

text \<open>
  C4, as stated: a page that is fetched and has no link still gets the final report, with
  a total of 0. The scan of \<open>empty.test\<close>, whose page is fetched with status 200 and
  has no anchor, logs the warning and ends there: nothing is printed.
\<close>

theorem empty_page_prints_no_report:
  "requests_get demo_world ''https://empty.test''
     = Inr (answer ''https://empty.test'' 200 ''OK'' ''<p>nothing</p>'')
   \<and> events (snd (run_script demo_world ''https://empty.test''))
       = [Log INFO ''Memulai pemindaian di: https://empty.test'',
          HttpGet ''https://empty.test'', no_links_warning]
   \<and> filter is_print (events (snd (run_script demo_world ''https://empty.test''))) = []"
proof -
  have "requests_get demo_world ''https://empty.test''
     = Inr (answer ''https://empty.test'' 200 ''OK'' ''<p>nothing</p>'')"
    by (simp add: demo_world_def)
  moreover have "events (snd (run_script demo_world ''https://empty.test''))
       = [Log INFO ''Memulai pemindaian di: https://empty.test'',
          HttpGet ''https://empty.test'', no_links_warning]"
    by code_simp
  ultimately show ?thesis by (simp add: is_print_def no_links_warning_def)
qed

text \<open>
  C4, amended. When the seed page is fetched without error and extraction yields no
  link, the scan logs the warning, sends no probe and returns without printing the final
  report: its events are the start line, the fetch and the warning.
\<close>

theorem page_without_links_ends_with_warning:
  assumes "is_valid_url (ip_address w) b = Inr True"
    and "requests_get w b = Inr resp" and "raise_for_status resp = None"
    and "scan_hrefs (ip_address w) b (find_all_a_href w (resp_text resp)) [] = ([], None)"
  shows "main w P b =
           (None, \<lparr>processed_urls = P, broken_links = [], ok_links = 0,
                   events = [Log INFO (''Memulai pemindaian di: '' @ b), HttpGet b,
                             no_links_warning]\<rparr>)
         \<and> filter is_print (events (snd (main w P b))) = []
         \<and> count_list (events (snd (main w P b))) (HttpHead u) = 0"
  using main_no_links [OF assms(1) get_all_links_no_anchor [OF assms(2-4)], of P]
  by (simp add: is_print_def no_links_warning_def)

theorem page_without_links_ends_with_warning_witness:
  "is_valid_url (ip_address demo_world) ''https://empty.test'' = Inr True
   \<and> requests_get demo_world ''https://empty.test''
       = Inr (answer ''https://empty.test'' 200 ''OK'' ''<p>nothing</p>'')
   \<and> raise_for_status (answer ''https://empty.test'' 200 ''OK'' ''<p>nothing</p>'') = None
   \<and> scan_hrefs (ip_address demo_world) ''https://empty.test''
         (find_all_a_href demo_world
            (resp_text (answer ''https://empty.test'' 200 ''OK'' ''<p>nothing</p>''))) []
       = ([], None)
   \<and> main demo_world {} ''https://empty.test'' =
       (None, \<lparr>processed_urls = {}, broken_links = [], ok_links = 0,
               events = [Log INFO (''Memulai pemindaian di: '' @ ''https://empty.test''),
                         HttpGet ''https://empty.test'', no_links_warning]\<rparr>)"
proof -
  have v: "is_valid_url (ip_address demo_world) ''https://empty.test'' = Inr True"
    by code_simp
  have g: "requests_get demo_world ''https://empty.test''
       = Inr (answer ''https://empty.test'' 200 ''OK'' ''<p>nothing</p>'')"
    by (simp add: demo_world_def)
  have r: "raise_for_status (answer ''https://empty.test'' 200 ''OK'' ''<p>nothing</p>'') = None"
    by (simp add: raise_for_status_def answer_def)
  have s: "scan_hrefs (ip_address demo_world) ''https://empty.test''
         (find_all_a_href demo_world
            (resp_text (answer ''https://empty.test'' 200 ''OK'' ''<p>nothing</p>''))) []
       = ([], None)"
    by (simp add: demo_world_def answer_def site_page_def hub_page_def)
  from page_without_links_ends_with_warning [OF v g r s, of "{}"] v g r s show ?thesis
    by simp
qed

text \<open>
  C10, at a failing input. The server of \<open>choices.test\<close> answers the fetch of the
  seed page with the final status 300 and the page of the first scenario. The status is
  outside 200 to 299, so by the claim, and by the comment of line 37, the fetch fails and
  the extraction returns the empty set. But \<open>raise_for_status\<close> raises from 400 on
  only: the two links of the page are extracted, and the scan goes on to probe them.
\<close>

theorem status_300_page_is_scanned:
  "requests_get demo_world ''https://choices.test''
     = Inr (answer ''https://choices.test'' 300 ''Multiple Choices'' site_page)
   \<and> fst (get_all_links demo_world ''https://choices.test'')
       = Inr [''https://choices.test/about'', ''https://other.test/ok'']
   \<and> filter is_request (events (snd (run_script demo_world ''https://choices.test'')))
       = [HttpGet ''https://choices.test'', HttpHead ''https://choices.test/about'',
          HttpHead ''https://other.test/ok'']"
proof -
  have "requests_get demo_world ''https://choices.test''
     = Inr (answer ''https://choices.test'' 300 ''Multiple Choices'' site_page)"
    by (simp add: demo_world_def)
  moreover have "fst (get_all_links demo_world ''https://choices.test'')
       = Inr [''https://choices.test/about'', ''https://other.test/ok'']"
    by code_simp
  moreover have
    "filter is_request (events (snd (run_script demo_world ''https://choices.test'')))
       = [HttpGet ''https://choices.test'', HttpHead ''https://choices.test/about'',
          HttpHead ''https://other.test/ok'']"
    by code_simp
  ultimately show ?thesis by simp
qed

text \<open>
  The failures that the code does detect: when the fetch of the seed page raises a
  request exception (a connection error, a timeout) or is answered with a status from 400
  to 599, link extraction returns the empty set, as it does in a world \<open>w'\<close> where the
  page is fetched and has no anchor. In both worlds \<open>main\<close> then logs the no-links
  warning and returns, without a probe and without the report, and the events of the two
  runs are the same but for the error line that the failed fetch logs.
\<close>

lemma failed_fetch_ends_like_page_without_links:
  assumes "is_valid_url (ip_address w) b = Inr True"
    and "(\<exists>e. requests_get w b = Inl e \<and> isinstance e RequestException)
         \<or> (\<exists>resp. requests_get w b = Inr resp
              \<and> 400 \<le> status_code resp \<and> status_code resp < 600)"
    and "is_valid_url (ip_address w') b = Inr True"
    and "requests_get w' b = Inr resp'" and "raise_for_status resp' = None"
    and "find_all_a_href w' (resp_text resp') = []"
  shows "fst (get_all_links w b) = Inr [] \<and> fst (get_all_links w' b) = Inr []
         \<and> (\<exists>m. main w P b =
               (None, \<lparr>processed_urls = P, broken_links = [], ok_links = 0,
                       events = [Log INFO (''Memulai pemindaian di: '' @ b), HttpGet b,
                                 Log ERROR (''Gagal mengambil '' @ b @ '': '' @ m),
                                 no_links_warning]\<rparr>))
         \<and> main w' P b =
               (None, \<lparr>processed_urls = P, broken_links = [], ok_links = 0,
                       events = [Log INFO (''Memulai pemindaian di: '' @ b), HttpGet b,
                                 no_links_warning]\<rparr>)
         \<and> filter (\<lambda>ev. \<not> is_error_log ev) (events (snd (main w P b)))
             = events (snd (main w' P b))"
proof -
  from get_all_links_fetch_fails [OF assms(2)]
  obtain m where g: "get_all_links w b =
      (Inr [], [HttpGet b, Log ERROR (''Gagal mengambil '' @ b @ '': '' @ m)])"
    by blast
  have g': "get_all_links w' b = (Inr [], [HttpGet b])"
    using assms(4-6) by (simp add: get_all_links_def)
  have m: "main w P b =
      (None, \<lparr>processed_urls = P, broken_links = [], ok_links = 0,
              events = [Log INFO (''Memulai pemindaian di: '' @ b), HttpGet b,
                        Log ERROR (''Gagal mengambil '' @ b @ '': '' @ m), no_links_warning]\<rparr>)"
    using main_no_links [OF assms(1) g, of P] by simp
  have m': "main w' P b =
      (None, \<lparr>processed_urls = P, broken_links = [], ok_links = 0,
              events = [Log INFO (''Memulai pemindaian di: '' @ b), HttpGet b,
                        no_links_warning]\<rparr>)"
    using main_no_links [OF assms(3) g', of P] by simp
  show ?thesis
    using g g' m m' by (simp add: is_error_log_def no_links_warning_def)
qed

lemma failed_fetch_ends_like_page_without_links_example:
  "is_valid_url (ip_address demo_world) ''https://gone.test'' = Inr True
   \<and> requests_get demo_world ''https://gone.test''
       = Inr (answer ''https://gone.test'' 404 ''Not Found'' site_page)
   \<and> 400 \<le> status_code (answer ''https://gone.test'' 404 ''Not Found'' site_page)
   \<and> status_code (answer ''https://gone.test'' 404 ''Not Found'' site_page) < 600
   \<and> is_valid_url (ip_address quiet_world) ''https://gone.test'' = Inr True
   \<and> requests_get quiet_world ''https://gone.test''
       = Inr (answer ''https://gone.test'' 200 ''OK'' ''<p>nothing</p>'')
   \<and> raise_for_status (answer ''https://gone.test'' 200 ''OK'' ''<p>nothing</p>'') = None
   \<and> find_all_a_href quiet_world
         (resp_text (answer ''https://gone.test'' 200 ''OK'' ''<p>nothing</p>'')) = []
   \<and> fst (get_all_links demo_world ''https://gone.test'') = Inr []
   \<and> fst (get_all_links quiet_world ''https://gone.test'') = Inr []
   \<and> filter (\<lambda>ev. \<not> is_error_log ev) (events (snd (main demo_world {} ''https://gone.test'')))
       = events (snd (main quiet_world {} ''https://gone.test''))"
proof -
  have v: "is_valid_url (ip_address demo_world) ''https://gone.test'' = Inr True"
    and v': "is_valid_url (ip_address quiet_world) ''https://gone.test'' = Inr True"
    by code_simp+
  have g: "requests_get demo_world ''https://gone.test''
       = Inr (answer ''https://gone.test'' 404 ''Not Found'' site_page)"
    by (simp add: demo_world_def)
  have s: "400 \<le> status_code (answer ''https://gone.test'' 404 ''Not Found'' site_page)"
    "status_code (answer ''https://gone.test'' 404 ''Not Found'' site_page) < 600"
    by (simp_all add: answer_def)
  have g': "requests_get quiet_world ''https://gone.test''
       = Inr (answer ''https://gone.test'' 200 ''OK'' ''<p>nothing</p>'')"
    by (simp add: quiet_world_def)
  have r': "raise_for_status (answer ''https://gone.test'' 200 ''OK'' ''<p>nothing</p>'') = None"
    by (simp add: raise_for_status_def answer_def)
  have f': "find_all_a_href quiet_world
         (resp_text (answer ''https://gone.test'' 200 ''OK'' ''<p>nothing</p>'')) = []"
    by (simp add: quiet_world_def demo_world_def answer_def site_page_def hub_page_def)
  have fails: "(\<exists>e. requests_get demo_world ''https://gone.test'' = Inl e
                  \<and> isinstance e RequestException)
         \<or> (\<exists>resp. requests_get demo_world ''https://gone.test'' = Inr resp
              \<and> 400 \<le> status_code resp \<and> status_code resp < 600)"
    using g s by simp
  from failed_fetch_ends_like_page_without_links [OF v fails v' g' r' f', of "{}"]
    v v' g g' s r' f'
  show ?thesis by simp
qed

subsection \<open>Failed probes in the report\<close>





text \<open>
  C7. Take a scan that reaches the probing of its links, each of which is answered or
  fails in one of the ways that \<open>check_link\<close> names (timeout, too many redirects,
  connection error, any other request exception). Then no exception leaves
  \<open>check_link\<close> or the scan; every link gets exactly one HEAD request; the broken
  links of the final state are the links whose probe raised or was answered with 400 or
  more, in the order of the scan, and all the others are counted as working; and the
  report that ends the scan prints the number of broken links and a line for each of
  them.
\<close>

theorem probe_failures_are_reported:
  assumes "is_valid_url (ip_address w) b = Inr True"
    and "fst (get_all_links w b) = Inr links"
    and "list_all (probe_handled w) links"
  shows "fst (run_script w b) = None
         \<and> list_all (\<lambda>l. \<exists>r. fst (check_link w processed l) = Inr r) links
         \<and> list_all (\<lambda>l. count_list (events (snd (run_script w b))) (HttpHead l) = 1) links
         \<and> map fst (broken_links (snd (run_script w b))) = filter (probe_fails w) links
         \<and> ok_links (snd (run_script w b)) = length (filter (\<lambda>l. \<not> probe_fails w l) links)
         \<and> (links \<noteq> [] \<longrightarrow>
              Print (''Tautan Rusak/Error : ''
                     @ str_nat (length (filter (probe_fails w) links)))
                \<in> set (events (snd (run_script w b))))
         \<and> list_all (\<lambda>l. probe_fails w l \<longrightarrow>
              (\<exists>reason. (l, reason) \<in> set (broken_links (snd (run_script w b)))
                 \<and> broken_line (l, reason) \<in> set (events (snd (run_script w b))))) links"
proof -
  obtain evs where g: "get_all_links w b = (Inr links, evs)"
    using assms(2) by (cases "get_all_links w b") simp
  have dist: "distinct links"
    using get_all_links_invariant [OF assms(2)] by simp
  have quiet: "count_list evs (HttpHead u) = 0" for u
    using g by (rule get_all_links_no_heads)
  have as_values: "list_all (\<lambda>l. \<exists>r. fst (check_link w processed l) = Inr r) links"
    using assms(3)
    by (auto simp: list_all_iff check_link_def probe_handled_def split: sum.splits)
  show ?thesis
  proof (cases "links = []")
    case True
    with main_no_links [OF assms(1), of evs "{}"] g show ?thesis
      by (simp add: run_script_def)
  next
    case False
    let ?st = "\<lparr>processed_urls = {}, broken_links = [], ok_links = 0,
        events = Log INFO (''Memulai pemindaian di: '' @ b) # evs
          @ [Log INFO (''Menemukan '' @ str_nat (length links)
               @ '' tautan unik. Memulai pemeriksaan...'')]\<rparr>"
    have fresh: "set links \<inter> processed_urls ?st = {}" by simp
    obtain r st' where l: "check_links w (length links) 0 links ?st = (r, st')"
      by (cases "check_links w (length links) 0 links ?st")
    have loop: "r = None
        \<and> map fst (broken_links st') = filter (probe_fails w) links
        \<and> ok_links st' = length (filter (\<lambda>l. \<not> probe_fails w l) links)
        \<and> count_list (events st') (HttpHead u) = (if u \<in> set links then 1 else 0)" for u
      using check_links_fresh [OF dist fresh assms(3), of "length links" 0 u] l quiet [of u]
      by auto
    then have r: "r = None" by simp
    have m: "run_script w b = (None, st'\<lparr>events := events st' @ report b (length links) st'\<rparr>)"
      using main_probing [OF assms(1) g False l] r by (simp add: run_script_def)
    have heads: "list_all (\<lambda>l. count_list (events (snd (run_script w b))) (HttpHead l) = 1) links"
      using m loop by (simp add: list_all_iff report_no_heads)
    have count_line: "Print (''Tautan Rusak/Error : ''
                     @ str_nat (length (filter (probe_fails w) links)))
                \<in> set (events (snd (run_script w b)))"
    proof -
      have "length (broken_links st') = length (filter (probe_fails w) links)"
        using loop [of "[]"] by (metis length_map)
      then show ?thesis using m by (simp add: report_def)
    qed
    have lines: "list_all (\<lambda>l. probe_fails w l \<longrightarrow>
              (\<exists>reason. (l, reason) \<in> set (broken_links (snd (run_script w b)))
                 \<and> broken_line (l, reason) \<in> set (events (snd (run_script w b))))) links"
    proof -
      have "\<exists>reason. (l, reason) \<in> set (broken_links st')
              \<and> broken_line (l, reason) \<in> set (report b (length links) st')"
        if "l \<in> set links" and "probe_fails w l" for l
      proof -
        from that loop [of "[]"] have "l \<in> set (map fst (broken_links st'))" by simp
        then obtain reason where in_list: "(l, reason) \<in> set (broken_links st')" by auto
        then have "broken_links st' \<noteq> []" by auto
        with in_list have "broken_line (l, reason) \<in> set (report b (length links) st')"
          by (simp add: report_def)
        with in_list show ?thesis by blast
      qed
      then show ?thesis using m by (auto simp: list_all_iff)
    qed
    show ?thesis
      using m loop [of "[]"] as_values heads count_line lines by simp
  qed
qed

theorem probe_failures_are_reported_witness:
  "is_valid_url (ip_address demo_world) ''https://hub.test'' = Inr True
   \<and> fst (get_all_links demo_world ''https://hub.test'') =
       Inr [''https://hub.test/ok'', ''https://hub.test/missing'', ''https://hub.test/slow'',
            ''https://hub.test/loop'', ''https://down.test/'', ''ftp://files.test/f'']
   \<and> list_all (probe_handled demo_world)
         [''https://hub.test/ok'', ''https://hub.test/missing'', ''https://hub.test/slow'',
          ''https://hub.test/loop'', ''https://down.test/'', ''ftp://files.test/f'']
   \<and> probe_fails demo_world ''https://hub.test/slow''
   \<and> fst (run_script demo_world ''https://hub.test'') = None
   \<and> count_list (events (snd (run_script demo_world ''https://hub.test'')))
         (HttpHead ''https://hub.test/slow'') = 1
   \<and> map fst (broken_links (snd (run_script demo_world ''https://hub.test''))) =
       [''https://hub.test/missing'', ''https://hub.test/slow'', ''https://hub.test/loop'',
        ''https://down.test/'', ''ftp://files.test/f'']
   \<and> ok_links (snd (run_script demo_world ''https://hub.test'')) = 1
   \<and> Print ''Tautan Rusak/Error : 5''
        \<in> set (events (snd (run_script demo_world ''https://hub.test'')))
   \<and> (\<exists>reason. (''https://hub.test/slow'', reason)
           \<in> set (broken_links (snd (run_script demo_world ''https://hub.test'')))
         \<and> broken_line (''https://hub.test/slow'', reason)
           \<in> set (events (snd (run_script demo_world ''https://hub.test''))))"
proof -
  let ?links = "[''https://hub.test/ok'', ''https://hub.test/missing'', ''https://hub.test/slow'',
            ''https://hub.test/loop'', ''https://down.test/'', ''ftp://files.test/f'']"
  have v: "is_valid_url (ip_address demo_world) ''https://hub.test'' = Inr True"
    by code_simp
  have g: "fst (get_all_links demo_world ''https://hub.test'') = Inr ?links"
    by code_simp
  have h: "list_all (probe_handled demo_world) ?links"
    by code_simp
  have f: "filter (probe_fails demo_world) ?links =
       [''https://hub.test/missing'', ''https://hub.test/slow'', ''https://hub.test/loop'',
        ''https://down.test/'', ''ftp://files.test/f'']"
    by code_simp
  have nf: "length (filter (\<lambda>l. \<not> probe_fails demo_world l) ?links) = 1"
    by code_simp
  have pf: "probe_fails demo_world ''https://hub.test/slow''"
    by code_simp
  have five: "str_nat (Suc (Suc (Suc (Suc (Suc 0))))) = ''5''"
    by code_simp
  from probe_failures_are_reported [OF v g h, of "{}"] v g h f nf pf five
  show ?thesis by simp
qed

end
